theory Spec2Isabelle
  imports Main "HOL-Library.Sublist" "HOL-Library.Word"
begin

section \<open>JavaScript strings\<close>

text \<open>
  A JavaScript string is a sequence of 16-bit code units. The string methods used by
  \<^verbatim>\<open>electron/utils/openclaw-workspace.ts\<close> are embedded on lists of code units.
\<close>

type_synonym code_unit = "16 word"
type_synonym jsstring = "code_unit list"

text \<open>A source literal (ASCII) as a JavaScript string.\<close>

definition utf16 :: "string \<Rightarrow> jsstring" where
  "utf16 cs = map (\<lambda>c. of_nat (of_char c)) cs"

text \<open>
  The characters removed by \<^verbatim>\<open>trim\<close> and \<^verbatim>\<open>trimEnd\<close>: ECMAScript WhiteSpace and
  LineTerminator (TAB, LF, VT, FF, CR, SP, NBSP, U+1680, U+2000 to U+200A, LS, PS,
  U+202F, U+205F, U+3000, BOM).
\<close>

definition isWhiteSpace :: "code_unit \<Rightarrow> bool" where
  "isWhiteSpace c \<longleftrightarrow>
     c = 0x09 \<or> c = 0x0A \<or> c = 0x0B \<or> c = 0x0C \<or> c = 0x0D \<or> c = 0x20 \<or> c = 0xA0 \<or>
     c = 0x1680 \<or> (0x2000 \<le> c \<and> c \<le> 0x200A) \<or> c = 0x2028 \<or> c = 0x2029 \<or>
     c = 0x202F \<or> c = 0x205F \<or> c = 0x3000 \<or> c = 0xFEFF"

definition trimStart :: "jsstring \<Rightarrow> jsstring" where
  "trimStart s = dropWhile isWhiteSpace s"

definition trimEnd :: "jsstring \<Rightarrow> jsstring" where
  "trimEnd s = rev (dropWhile isWhiteSpace (rev s))"

definition trim :: "jsstring \<Rightarrow> jsstring" where
  "trim s = trimEnd (trimStart s)"

text \<open>
  \<^verbatim>\<open>s.indexOf(m)\<close>: the least index at which \<open>m\<close> occurs in \<open>s\<close>; the source's
  \<^verbatim>\<open>-1\<close> is \<open>None\<close>.
\<close>

fun indexOf :: "'a list \<Rightarrow> 'a list \<Rightarrow> nat option" where
  "indexOf [] m = (if m = [] then Some 0 else None)"
| "indexOf (x # xs) m =
     (if prefix m (x # xs) then Some 0 else map_option Suc (indexOf xs m))"

text \<open>\<^verbatim>\<open>s.slice(a, b)\<close> and \<^verbatim>\<open>s.slice(a)\<close> for indices that are not negative.\<close>

definition sliceRange :: "'a list \<Rightarrow> nat \<Rightarrow> nat \<Rightarrow> 'a list" where
  "sliceRange s a b = take (b - a) (drop a s)"

definition sliceFrom :: "'a list \<Rightarrow> nat \<Rightarrow> 'a list" where
  "sliceFrom s a = drop a s"

definition startsWith :: "jsstring \<Rightarrow> jsstring \<Rightarrow> bool" where
  "startsWith s p = prefix p s"

definition endsWith :: "jsstring \<Rightarrow> jsstring \<Rightarrow> bool" where
  "endsWith s p = suffix p s"

text \<open>
  \<^verbatim>\<open>s.replace(pattern, replacement)\<close> with a string pattern: only the first occurrence
  is replaced (the replacement \<^verbatim>\<open>'.md'\<close> holds no \<^verbatim>\<open>$\<close> pattern).
\<close>

definition replace :: "jsstring \<Rightarrow> jsstring \<Rightarrow> jsstring \<Rightarrow> jsstring" where
  "replace s pattern replacement =
     (case indexOf s pattern of
        None \<Rightarrow> s
      | Some i \<Rightarrow> sliceRange s 0 i @ replacement @ sliceFrom s (i + length pattern))"

section \<open>The section merger\<close>

definition CLAWX_BEGIN :: jsstring where
  "CLAWX_BEGIN = utf16 ''<!-- clawx:begin -->''"

definition CLAWX_END :: jsstring where
  "CLAWX_END = utf16 ''<!-- clawx:end -->''"

text \<open>The template literal of \<^verbatim>\<open>mergeClawXSection\<close>, line 16.\<close>

definition wrapped :: "jsstring \<Rightarrow> jsstring" where
  "wrapped section =
     CLAWX_BEGIN @ utf16 ''\<newline>'' @ trim section @ utf16 ''\<newline>'' @ CLAWX_END"

definition mergeClawXSection :: "jsstring \<Rightarrow> jsstring \<Rightarrow> jsstring" where
  "mergeClawXSection existing section =
     (let beginIdx = indexOf existing CLAWX_BEGIN;
          endIdx = indexOf existing CLAWX_END
      in case (beginIdx, endIdx) of
           (Some b, Some e) \<Rightarrow>
             sliceRange existing 0 b @ wrapped section @
             sliceFrom existing (e + length CLAWX_END)
         | _ \<Rightarrow>
             trimEnd existing @ utf16 ''\<newline>\<newline>'' @ wrapped section @
             utf16 ''\<newline>'')"

text \<open>
  The test of \<^verbatim>\<open>repairClawXOnlyBootstrapFiles\<close>, lines 50 to 56, on the content of one
  file: true when the file is to be unlinked.
\<close>

definition isClawXOnly :: "jsstring \<Rightarrow> bool" where
  "isClawXOnly content =
     (let beginIdx = indexOf content CLAWX_BEGIN;
          endIdx = indexOf content CLAWX_END
      in case (beginIdx, endIdx) of
           (Some b, Some e) \<Rightarrow>
             (let before = trim (sliceRange content 0 b);
                  after = trim (sliceFrom content (e + length CLAWX_END))
              in before = [] \<and> after = [])
         | _ \<Rightarrow> False)"

text \<open>The target name of a template file, line 149.\<close>

definition targetName :: "jsstring \<Rightarrow> jsstring" where
  "targetName file = replace file (utf16 ''.clawx.md'') (utf16 ''.md'')"

section \<open>The file system and the environment\<close>

text \<open>
  The calls into Node's \<^verbatim>\<open>fs\<close> act on a state keyed by the path string handed to
  the call. \<open>files\<close> holds the text of each regular file as \<^verbatim>\<open>readFileSync(p, 'utf-8')\<close>
  returns it; \<open>directories\<close> holds for each directory the entries \<^verbatim>\<open>readdirSync\<close>
  reports; a call on a path in \<open>unreadable\<close> or \<open>unwritable\<close> fails (permissions, a file
  among the ancestors, a read-only volume). \<open>written\<close> records the paths of the
  \<^verbatim>\<open>writeFileSync\<close> calls that succeeded, oldest first. Creating a directory does not
  add an entry to the stored listing of its parent.
\<close>

datatype dirent = Dirent (name: jsstring) (isDirectory: bool)

record filesys =
  files :: "jsstring \<rightharpoonup> jsstring"
  directories :: "jsstring \<rightharpoonup> dirent list"
  unreadable :: "jsstring set"
  unwritable :: "jsstring set"
  written :: "jsstring list"

text \<open>A call that may throw either completes with the new state or throws in a state.\<close>

datatype outcome = Done filesys | Threw filesys

definition existsSync :: "filesys \<Rightarrow> jsstring \<Rightarrow> bool" where
  "existsSync fs p \<longleftrightarrow> files fs p \<noteq> None \<or> directories fs p \<noteq> None"

definition readFileSync :: "filesys \<Rightarrow> jsstring \<Rightarrow> jsstring option" where
  "readFileSync fs p = (if p \<in> unreadable fs then None else files fs p)"

definition readdirSync :: "filesys \<Rightarrow> jsstring \<Rightarrow> dirent list option" where
  "readdirSync fs p = (if p \<in> unreadable fs then None else directories fs p)"

definition writeFileSync :: "filesys \<Rightarrow> jsstring \<Rightarrow> jsstring \<Rightarrow> outcome" where
  "writeFileSync fs p text =
     (if p \<in> unwritable fs \<or> directories fs p \<noteq> None then Threw fs
      else Done (fs\<lparr>files := (files fs)(p \<mapsto> text), written := written fs @ [p]\<rparr>))"

definition mkdirSync :: "filesys \<Rightarrow> jsstring \<Rightarrow> outcome" where
  "mkdirSync fs p =
     (if p \<in> unwritable fs \<or> files fs p \<noteq> None then Threw fs
      else if directories fs p \<noteq> None then Done fs
      else Done (fs\<lparr>directories := (directories fs)(p \<mapsto> [])\<rparr>))"

text \<open>
  What the module takes from outside: \<^verbatim>\<open>os.homedir()\<close>, \<^verbatim>\<open>getResourcesDir()\<close> of
  \<^verbatim>\<open>./paths\<close>, \<^verbatim>\<open>path.join\<close> for two arguments, and \<^verbatim>\<open>JSON.parse\<close> (\<open>None\<close> when it
  throws).
\<close>

datatype json =
    JNull
  | JBool bool
  | JNumber int
  | JString jsstring
  | JArray "json list"
  | JObject "(jsstring \<times> json) list"

record env =
  homedir :: jsstring
  getResourcesDir :: jsstring
  join :: "jsstring \<Rightarrow> jsstring \<Rightarrow> jsstring"
  parseJSON :: "jsstring \<Rightarrow> json option"

text \<open>
  \<^verbatim>\<open>unlinkSync\<close> removes a regular file and its entry from the listing of every directory
  that holds it.
\<close>

definition unlinkSync :: "env \<Rightarrow> filesys \<Rightarrow> jsstring \<Rightarrow> outcome" where
  "unlinkSync e fs p =
     (if p \<in> unwritable fs \<or> files fs p = None then Threw fs
      else Done (fs\<lparr>files := (files fs)(p := None),
                     directories := (\<lambda>d. map_option
                        (filter (\<lambda>entry. join e d (name entry) \<noteq> p)) (directories fs d))\<rparr>))"

section \<open>Workspace discovery\<close>

text \<open>
  Optional chaining \<^verbatim>\<open>v?.key\<close> on a parsed value; \<open>None\<close> is \<^verbatim>\<open>undefined\<close>. Only a
  JSON object has one of the keys the module reads.
\<close>

fun getProp :: "json option \<Rightarrow> string \<Rightarrow> json option" where
  "getProp (Some (JObject kvs)) key = map_of kvs (utf16 key)"
| "getProp _ key = None"

text \<open>\<^verbatim>\<open>dirs.add(d)\<close> on a \<^verbatim>\<open>Set\<close>, kept in insertion order as \<^verbatim>\<open>[...dirs]\<close> lists it.\<close>

definition setAdd :: "jsstring list \<Rightarrow> jsstring \<Rightarrow> jsstring list" where
  "setAdd dirs d = (if d \<in> set dirs then dirs else dirs @ [d])"

text \<open>
  \<^verbatim>\<open>ws.replace(/^~/, homedir())\<close>, for a home directory without \<^verbatim>\<open>$\<close> patterns.
\<close>

definition expandHome :: "env \<Rightarrow> jsstring \<Rightarrow> jsstring" where
  "expandHome e ws = (if startsWith ws (utf16 ''~'') then homedir e @ sliceFrom ws 1 else ws)"

text \<open>
  The guarded \<^verbatim>\<open>dirs.add\<close> of lines 83 to 85 and 91 to 93:
  \<^verbatim>\<open>typeof ws === 'string' && ws.trim()\<close>.
\<close>

definition addWorkspace :: "env \<Rightarrow> jsstring list \<Rightarrow> json option \<Rightarrow> jsstring list" where
  "addWorkspace e dirs ws =
     (case ws of
        Some (JString s) \<Rightarrow> if trim s \<noteq> [] then setAdd dirs (expandHome e s) else dirs
      | _ \<Rightarrow> dirs)"

text \<open>Lines 78 to 99; every exception leaves \<open>dirs\<close> as it is.\<close>

definition addConfigDirs :: "env \<Rightarrow> filesys \<Rightarrow> jsstring \<Rightarrow> jsstring list \<Rightarrow> jsstring list" where
  "addConfigDirs e fs configPath dirs =
     (if existsSync fs configPath then
        (case readFileSync fs configPath of
           None \<Rightarrow> dirs
         | Some text \<Rightarrow>
             (case parseJSON e text of
                None \<Rightarrow> dirs
              | Some config \<Rightarrow>
                  (let defaultWs =
                         getProp (getProp (getProp (Some config) ''agents'') ''defaults'') ''workspace'';
                       dirs1 = addWorkspace e dirs defaultWs;
                       agents = getProp (getProp (Some config) ''agents'') ''list''
                   in case agents of
                        Some (JArray agentList) \<Rightarrow>
                          foldl (\<lambda>ds agent. addWorkspace e ds (getProp (Some agent) ''workspace''))
                            dirs1 agentList
                      | _ \<Rightarrow> dirs1)))
      else dirs)"

text \<open>Lines 101 to 109.\<close>

definition addScannedDirs :: "env \<Rightarrow> filesys \<Rightarrow> jsstring \<Rightarrow> jsstring list \<Rightarrow> jsstring list" where
  "addScannedDirs e fs openclawDir dirs =
     (case readdirSync fs openclawDir of
        None \<Rightarrow> dirs
      | Some entries \<Rightarrow>
          foldl (\<lambda>ds entry.
                   if isDirectory entry \<and> startsWith (name entry) (utf16 ''workspace'')
                   then setAdd ds (join e openclawDir (name entry)) else ds)
            dirs entries)"

definition resolveAllWorkspaceDirs :: "env \<Rightarrow> filesys \<Rightarrow> jsstring list" where
  "resolveAllWorkspaceDirs e fs =
     (let openclawDir = join e (homedir e) (utf16 ''.openclaw'');
          configPath = join e openclawDir (utf16 ''openclaw.json'');
          dirs1 = addConfigDirs e fs configPath [];
          dirs2 = addScannedDirs e fs openclawDir dirs1
      in if length dirs2 = 0 then setAdd dirs2 (join e openclawDir (utf16 ''workspace''))
         else dirs2)"

section \<open>Repair and synchronisation\<close>

text \<open>A \<^verbatim>\<open>for\<close> loop whose body may throw: the first exception ends the loop.\<close>

fun forEach :: "('a \<Rightarrow> filesys \<Rightarrow> outcome) \<Rightarrow> 'a list \<Rightarrow> filesys \<Rightarrow> outcome" where
  "forEach body [] fs = Done fs"
| "forEach body (x # xs) fs =
     (case body x fs of Done fs' \<Rightarrow> forEach body xs fs' | Threw fs' \<Rightarrow> Threw fs')"

text \<open>The body of the inner loop of \<^verbatim>\<open>repairClawXOnlyBootstrapFiles\<close>, lines 43 to 63.\<close>

definition repairFile :: "env \<Rightarrow> jsstring \<Rightarrow> filesys \<Rightarrow> jsstring \<Rightarrow> filesys" where
  "repairFile e workspaceDir fs file =
     (let filePath = join e workspaceDir file
      in case readFileSync fs filePath of
           None \<Rightarrow> fs
         | Some content \<Rightarrow>
             if isClawXOnly content
             then (case unlinkSync e fs filePath of Done fs' \<Rightarrow> fs' | Threw fs' \<Rightarrow> fs')
             else fs)"

text \<open>The body of the outer loop, lines 35 to 64.\<close>

definition repairWorkspace :: "env \<Rightarrow> filesys \<Rightarrow> jsstring \<Rightarrow> filesys" where
  "repairWorkspace e fs workspaceDir =
     (if \<not> existsSync fs workspaceDir then fs
      else case readdirSync fs workspaceDir of
             None \<Rightarrow> fs
           | Some listing \<Rightarrow>
               (let entries = filter (\<lambda>f. endsWith f (utf16 ''.md'')) (map name listing)
                in foldl (repairFile e workspaceDir) fs entries))"

definition repairClawXOnlyBootstrapFiles :: "env \<Rightarrow> filesys \<Rightarrow> filesys" where
  "repairClawXOnlyBootstrapFiles e fs =
     (let workspaceDirs = resolveAllWorkspaceDirs e fs
      in foldl (repairWorkspace e) fs workspaceDirs)"

text \<open>The body of the inner loop of \<^verbatim>\<open>ensureClawXContext\<close>, lines 149 to 164.\<close>

definition syncTarget :: "env \<Rightarrow> jsstring \<Rightarrow> jsstring \<Rightarrow> jsstring \<Rightarrow> filesys \<Rightarrow> outcome" where
  "syncTarget e contextDir workspaceDir file fs =
     (let targetPath = join e workspaceDir (targetName file)
      in if \<not> existsSync fs targetPath then Done fs
         else case readFileSync fs (join e contextDir file) of
                None \<Rightarrow> Threw fs
              | Some section \<Rightarrow>
                  (case readFileSync fs targetPath of
                     None \<Rightarrow> Threw fs
                   | Some existing \<Rightarrow>
                       (let merged = mergeClawXSection existing section
                        in if merged \<noteq> existing then writeFileSync fs targetPath merged
                           else Done fs)))"

text \<open>The body of the outer loop, lines 144 to 165.\<close>

definition syncWorkspace :: "env \<Rightarrow> jsstring \<Rightarrow> jsstring list \<Rightarrow> jsstring \<Rightarrow> filesys \<Rightarrow> outcome" where
  "syncWorkspace e contextDir templates workspaceDir fs =
     (case (if \<not> existsSync fs workspaceDir then mkdirSync fs workspaceDir else Done fs) of
        Threw fs' \<Rightarrow> Threw fs'
      | Done fs' \<Rightarrow> forEach (syncTarget e contextDir workspaceDir) templates fs')"

definition ensureClawXContext :: "env \<Rightarrow> filesys \<Rightarrow> outcome" where
  "ensureClawXContext e fs =
     (let contextDir = join e (getResourcesDir e) (utf16 ''context'')
      in if \<not> existsSync fs contextDir then Done fs
         else case readdirSync fs contextDir of
                None \<Rightarrow> Done fs
              | Some listing \<Rightarrow>
                  (let templates =
                         filter (\<lambda>f. endsWith f (utf16 ''.clawx.md'')) (map name listing);
                       workspaceDirs = resolveAllWorkspaceDirs e fs
                   in forEach (syncWorkspace e contextDir templates) workspaceDirs fs))"


section \<open>Notions of the specification\<close>

text \<open>
  \<open>firstOccurrence m c before after\<close>: the text \<open>c\<close> is \<open>before\<close>, then \<open>m\<close>, then
  \<open>after\<close>, and \<open>m\<close> occurs at no earlier place of \<open>c\<close>.
\<close>

definition firstOccurrence :: "'a list \<Rightarrow> 'a list \<Rightarrow> 'a list \<Rightarrow> 'a list \<Rightarrow> bool" where
  "firstOccurrence m c before after \<longleftrightarrow>
     c = before @ m @ after \<and> (\<forall>p u. c = p @ m @ u \<longrightarrow> length before \<le> length p)"






section \<open>The scenario of the specification\<close>

text \<open>
  Section 8 of the specification: the configuration declares the agent workspace
  \<^verbatim>\<open>~/w1\<close>, the bundled template \<^verbatim>\<open>AGENTS.clawx.md\<close> holds \<^verbatim>\<open>Rules: be nice\<close>, and
  \<^verbatim>\<open>AGENTS.md\<close> of the workspace holds a given text or does not exist. \<open>posixJoin\<close> is
  \<^verbatim>\<open>path.join\<close> on a directory without a final slash and a plain name. A second
  configuration declares the default workspace \<^verbatim>\<open>rel\<close>.
\<close>

definition posixJoin :: "jsstring \<Rightarrow> jsstring \<Rightarrow> jsstring" where
  "posixJoin a b = a @ utf16 ''/'' @ b"

definition scenarioConfigText :: jsstring where
  \<open>scenarioConfigText = utf16 ''{"agents":{"list":[{"workspace":"~/w1"}]}}''\<close>

definition scenarioConfig :: json where
  "scenarioConfig =
     JObject [(utf16 ''agents'',
       JObject [(utf16 ''list'',
         JArray [JObject [(utf16 ''workspace'', JString (utf16 ''~/w1''))]])])]"

definition relativeConfigText :: jsstring where
  \<open>relativeConfigText = utf16 ''{"agents":{"defaults":{"workspace":"rel"}}}''\<close>

definition relativeConfig :: json where
  "relativeConfig =
     JObject [(utf16 ''agents'',
       JObject [(utf16 ''defaults'',
         JObject [(utf16 ''workspace'', JString (utf16 ''rel''))])])]"

definition scenarioEnv :: env where
  "scenarioEnv =
     \<lparr>homedir = utf16 ''/home/u'',
      getResourcesDir = utf16 ''/app'',
      join = posixJoin,
      parseJSON = (\<lambda>t. if t = scenarioConfigText then Some scenarioConfig
                       else if t = relativeConfigText then Some relativeConfig
                       else None)\<rparr>"

definition scenarioFs :: "jsstring \<Rightarrow> jsstring option \<Rightarrow> jsstring list \<Rightarrow> filesys" where
  "scenarioFs configText agentsMd trace =
     \<lparr>files =
        [utf16 ''/home/u/.openclaw/openclaw.json'' \<mapsto> configText,
         utf16 ''/app/context/AGENTS.clawx.md'' \<mapsto> utf16 ''Rules: be nice'']
        (utf16 ''/home/u/w1/AGENTS.md'' := agentsMd),
      directories =
        [utf16 ''/home/u/.openclaw'' \<mapsto> [Dirent (utf16 ''openclaw.json'') False],
         utf16 ''/app/context'' \<mapsto> [Dirent (utf16 ''AGENTS.clawx.md'') False],
         utf16 ''/home/u/w1'' \<mapsto>
           (case agentsMd of None \<Rightarrow> [] | Some t \<Rightarrow> [Dirent (utf16 ''AGENTS.md'') False])],
      unreadable = {},
      unwritable = {},
      written = trace\<rparr>"


section \<open>Searching in lists\<close>

lemma indexOf_None_iff: "indexOf xs m = None \<longleftrightarrow> \<not> sublist m xs"
  by (induction xs) (auto simp: sublist_Cons_right)

lemma indexOf_Some_prefix: "indexOf xs m = Some i \<Longrightarrow> i \<le> length xs \<and> prefix m (drop i xs)"
  by (induction xs arbitrary: i) (auto split: if_splits)

lemma indexOf_Some_least: "indexOf xs m = Some i \<Longrightarrow> k < i \<Longrightarrow> \<not> prefix m (drop k xs)"
proof (induction xs arbitrary: i k)
  case Nil
  then show ?case by (auto split: if_splits)
next
  case (Cons x xs)
  then show ?case by (cases k) (auto split: if_splits)
qed

lemma prefix_shorter:
  assumes "prefix m (p @ q @ r)" "length m \<le> length (p @ q)"
  shows "prefix m (p @ q)"
proof -
  have "prefix m ((p @ q) @ r)" using assms(1) by simp
  moreover have "prefix (p @ q) ((p @ q) @ r)" by simp
  ultimately show ?thesis using assms(2) by (rule prefix_length_prefix)
qed

lemma indexOf_first:
  "\<not> sublist m (p @ butlast m) \<Longrightarrow> indexOf (p @ m @ r) m = Some (length p)"
proof (induction p)
  case Nil
  have "prefix m (m @ r)" by simp
  then show ?case by (cases "m @ r") auto
next
  case (Cons a p)
  have "\<not> sublist m (p @ butlast m)"
    using Cons.prems by (auto simp: sublist_Cons_right)
  then have ih: "indexOf (p @ m @ r) m = Some (length p)" by (rule Cons.IH)
  have "\<not> prefix m (a # p @ m @ r)"
  proof
    assume pm: "prefix m (a # p @ m @ r)"
    have ne: "m \<noteq> []" using Cons.prems by auto
    then have len: "length m \<le> length ((a # p) @ butlast m)" by simp
    have "butlast m @ [last m] = m" using ne by (rule append_butlast_last_id)
    then have "m @ r = (butlast m @ [last m]) @ r" by (rule arg_cong[where f="\<lambda>z. z @ r", symmetric])
    also have "\<dots> = butlast m @ (last m # r)" by simp
    finally have eq: "m @ r = butlast m @ (last m # r)" .
    have "prefix m ((a # p) @ (m @ r))" using pm by simp
    then have "prefix m ((a # p) @ butlast m @ (last m # r))" by (simp only: eq)
    then have "prefix m ((a # p) @ butlast m)" using len by (rule prefix_shorter)
    then show False using Cons.prems by (auto dest: prefix_imp_sublist)
  qed
  then show ?case using ih by simp
qed

lemma sublist_append_notin:
  assumes "c \<notin> set m"
  shows "sublist m (xs @ c # ys) \<longleftrightarrow> sublist m xs \<or> sublist m ys"
proof
  assume "sublist m (xs @ c # ys)"
  then consider "sublist m xs" | "sublist m (c # ys)"
    | m1 m2 where "m = m1 @ m2" "suffix m1 xs" "prefix m2 (c # ys)"
    by (auto simp: sublist_append)
  then show "sublist m xs \<or> sublist m ys"
  proof cases
    case 2
    then show ?thesis using assms by (cases m) (auto simp: sublist_Cons_right)
  next
    case 3
    then show ?thesis using assms by (cases m2) auto
  qed simp
next
  assume "sublist m xs \<or> sublist m ys"
  then show "sublist m (xs @ c # ys)"
    by (auto simp: sublist_append sublist_Cons_right)
qed

lemma sublist_append_hd:
  assumes "ys \<noteq> []" "hd ys \<notin> set (tl m)"
  shows "sublist m (xs @ ys) \<longleftrightarrow> sublist m xs \<or> sublist m ys"
proof
  assume "sublist m (xs @ ys)"
  then consider "sublist m xs" | "sublist m ys"
    | m1 m2 where "m = m1 @ m2" "suffix m1 xs" "prefix m2 ys"
    by (auto simp: sublist_append)
  then show "sublist m xs \<or> sublist m ys"
  proof cases
    case 3
    show ?thesis
    proof (cases "m1 = [] \<or> m2 = []")
      case True
      then show ?thesis using 3 by auto
    next
      case False
      then have "hd ys = hd m2" using 3(3) assms(1) by (cases m2; cases ys) auto
      moreover have "hd m2 \<in> set (tl m)" using False 3(1) by (cases m1; cases m2) auto
      ultimately show ?thesis using assms(2) by simp
    qed
  qed simp_all
next
  assume "sublist m xs \<or> sublist m ys"
  then show "sublist m (xs @ ys)"
    by (auto simp: sublist_append)
qed

lemma sublist_block:
  assumes "m \<noteq> []" "hd m \<notin> set (tl b)" "sublist m (b @ ys)"
  shows "prefix m (b @ ys) \<or> sublist m ys"
proof -
  have inb: "prefix m1 m \<Longrightarrow> m1 \<noteq> [] \<Longrightarrow> b = ps @ m1 @ ss \<Longrightarrow> ps = []" for m1 ps ss
  proof (rule ccontr)
    assume a: "prefix m1 m" "m1 \<noteq> []" "b = ps @ m1 @ ss" "ps \<noteq> []"
    then have "hd m1 = hd m" by (cases m1) (auto simp: prefix_def)
    moreover have "hd m1 \<in> set (tl b)" using a by (cases ps; cases m1) auto
    ultimately show False using assms(2) by simp
  qed
  from assms(3) consider "sublist m b" | "sublist m ys"
    | m1 m2 where "m = m1 @ m2" "suffix m1 b" "prefix m2 ys"
    by (auto simp: sublist_append)
  then show ?thesis
  proof cases
    case 1
    then obtain ps ss where b: "b = ps @ m @ ss" by (auto simp: sublist_def)
    then have "ps = []" using inb[of m ps ss] assms(1) by simp
    then show ?thesis using b by simp
  next
    case 2
    then show ?thesis by simp
  next
    case 3
    show ?thesis
    proof (cases "m1 = []")
      case True
      then show ?thesis using 3 by auto
    next
      case False
      from 3(2) obtain ps where b: "b = ps @ m1 @ []" by (auto simp: suffix_def)
      then have "ps = []" using inb[of m1 ps "[]"] 3(1) False by simp
      then have "b = m1" using b by simp
      then show ?thesis using 3 by (auto simp: prefix_def)
    qed
  qed
qed

section \<open>Markers and trimming\<close>

lemma CLAWX_BEGIN_unfold:
  "CLAWX_BEGIN = [0x3C, 0x21, 0x2D, 0x2D, 0x20, 0x63, 0x6C, 0x61, 0x77, 0x78, 0x3A,
                  0x62, 0x65, 0x67, 0x69, 0x6E, 0x20, 0x2D, 0x2D, 0x3E]"
  by (simp add: CLAWX_BEGIN_def utf16_def)

lemma CLAWX_END_unfold:
  "CLAWX_END = [0x3C, 0x21, 0x2D, 0x2D, 0x20, 0x63, 0x6C, 0x61, 0x77, 0x78, 0x3A,
                0x65, 0x6E, 0x64, 0x20, 0x2D, 0x2D, 0x3E]"
  by (simp add: CLAWX_END_def utf16_def)

lemma newline_unfold: "utf16 ''\<newline>'' = [0x0A]" "utf16 ''\<newline>\<newline>'' = [0x0A, 0x0A]"
  by (simp_all add: utf16_def)

lemma length_markers [simp]: "length CLAWX_BEGIN = 20" "length CLAWX_END = 18"
  by (simp_all add: CLAWX_BEGIN_unfold CLAWX_END_unfold)

lemma markers_nonempty [simp]: "CLAWX_BEGIN \<noteq> []" "CLAWX_END \<noteq> []"
  by (simp_all add: CLAWX_BEGIN_unfold CLAWX_END_unfold)

lemma isWhiteSpace_newline [simp]: "isWhiteSpace 0x0A"
  by (simp add: isWhiteSpace_def)

lemma not_isWhiteSpace_lt [simp]: "\<not> isWhiteSpace 0x3C"
  by (simp add: isWhiteSpace_def)

lemma trimEnd_decomp: "s = trimEnd s @ rev (takeWhile isWhiteSpace (rev s))"
proof -
  have "rev (rev s) = rev (takeWhile isWhiteSpace (rev s) @ dropWhile isWhiteSpace (rev s))"
    by (simp only: takeWhile_dropWhile_id)
  then show ?thesis by (simp only: trimEnd_def rev_append rev_rev_ident)
qed

lemma prefix_trimEnd: "prefix (trimEnd s) s"
  using trimEnd_decomp [of s] by (metis prefixI)

lemma sublist_trim: "sublist (trim s) s"
proof -
  have "sublist (trimEnd (trimStart s)) (trimStart s)"
    using prefix_trimEnd by (rule prefix_imp_sublist)
  moreover have "sublist (trimStart s) s" by (simp add: trimStart_def)
  ultimately show ?thesis unfolding trim_def by (rule sublist_order.order_trans)
qed

lemma trimEnd_whitespace: "(\<forall>c \<in> set s. isWhiteSpace c) \<Longrightarrow> trimEnd s = []"
  by (simp add: trimEnd_def)

lemma trimEnd_eq_Nil_iff: "trimEnd s = [] \<longleftrightarrow> (\<forall>c \<in> set s. isWhiteSpace c)"
  by (simp add: trimEnd_def)

lemma trim_eq_Nil_iff: "trim s = [] \<longleftrightarrow> (\<forall>c \<in> set s. isWhiteSpace c)"
proof
  assume "trim s = []"
  then have all: "\<forall>c \<in> set (dropWhile isWhiteSpace s). isWhiteSpace c"
    by (simp add: trim_def trimStart_def trimEnd_eq_Nil_iff)
  have "dropWhile isWhiteSpace s = []"
  proof (rule ccontr)
    assume ne: "dropWhile isWhiteSpace s \<noteq> []"
    then have "\<not> isWhiteSpace (hd (dropWhile isWhiteSpace s))" by (rule hd_dropWhile)
    then show False using all ne by simp
  qed
  then show "\<forall>c \<in> set s. isWhiteSpace c" by (simp add: dropWhile_eq_Nil_conv)
next
  assume "\<forall>c \<in> set s. isWhiteSpace c"
  then have "trimStart s = []" by (simp add: trimStart_def)
  then show "trim s = []" by (simp add: trim_def trimEnd_def)
qed

lemma no_BEGIN_butlast: "\<not> sublist CLAWX_BEGIN p \<Longrightarrow> \<not> sublist CLAWX_BEGIN (p @ butlast CLAWX_BEGIN)"
proof -
  assume a: "\<not> sublist CLAWX_BEGIN p"
  have "\<not> sublist CLAWX_BEGIN (butlast CLAWX_BEGIN)"
    by (auto dest: sublist_length_le)
  moreover have "butlast CLAWX_BEGIN \<noteq> []" "hd (butlast CLAWX_BEGIN) \<notin> set (tl CLAWX_BEGIN)"
    by (simp_all add: CLAWX_BEGIN_unfold)
  ultimately show ?thesis using a by (simp add: sublist_append_hd)
qed

lemma no_END_butlast: "\<not> sublist CLAWX_END p \<Longrightarrow> \<not> sublist CLAWX_END (p @ butlast CLAWX_END)"
proof -
  assume a: "\<not> sublist CLAWX_END p"
  have "\<not> sublist CLAWX_END (butlast CLAWX_END)"
    by (auto dest: sublist_length_le)
  moreover have "butlast CLAWX_END \<noteq> []" "hd (butlast CLAWX_END) \<notin> set (tl CLAWX_END)"
    by (simp_all add: CLAWX_END_unfold)
  ultimately show ?thesis using a by (simp add: sublist_append_hd)
qed

lemma sublist_END_over_BEGIN:
  "sublist CLAWX_END (p @ CLAWX_BEGIN @ q) \<longleftrightarrow> sublist CLAWX_END p \<or> sublist CLAWX_END q"
proof -
  have "hd (CLAWX_BEGIN @ q) \<notin> set (tl CLAWX_END)" "CLAWX_BEGIN @ q \<noteq> []"
    by (simp_all add: CLAWX_BEGIN_unfold CLAWX_END_unfold)
  then have 1: "sublist CLAWX_END (p @ CLAWX_BEGIN @ q) \<longleftrightarrow>
      sublist CLAWX_END p \<or> sublist CLAWX_END (CLAWX_BEGIN @ q)"
    by (simp add: sublist_append_hd)
  have "hd CLAWX_END \<notin> set (tl CLAWX_BEGIN)"
    by (simp add: CLAWX_BEGIN_unfold CLAWX_END_unfold)
  moreover have "\<not> prefix CLAWX_END (CLAWX_BEGIN @ q)"
    by (simp add: CLAWX_BEGIN_unfold CLAWX_END_unfold)
  ultimately have "sublist CLAWX_END (CLAWX_BEGIN @ q) \<Longrightarrow> sublist CLAWX_END q"
    using sublist_block [of CLAWX_END CLAWX_BEGIN q] by auto

  moreover have "sublist CLAWX_END q \<Longrightarrow> sublist CLAWX_END (CLAWX_BEGIN @ q)"
    by (simp add: sublist_append)
  ultimately have "sublist CLAWX_END (CLAWX_BEGIN @ q) \<longleftrightarrow> sublist CLAWX_END q"
    by blast
  then show ?thesis using 1 by simp
qed

lemma sublist_marker_newline:
  "sublist CLAWX_BEGIN (p @ 0x0A # q) \<longleftrightarrow> sublist CLAWX_BEGIN p \<or> sublist CLAWX_BEGIN q"
  "sublist CLAWX_END (p @ 0x0A # q) \<longleftrightarrow> sublist CLAWX_END p \<or> sublist CLAWX_END q"
  by (rule sublist_append_notin, simp add: CLAWX_BEGIN_unfold CLAWX_END_unfold)+

lemma indexOf_BEGIN_first:
  "\<not> sublist CLAWX_BEGIN p \<Longrightarrow> indexOf (p @ CLAWX_BEGIN @ r) CLAWX_BEGIN = Some (length p)"
  by (rule indexOf_first) (rule no_BEGIN_butlast)

lemma indexOf_END_first:
  "\<not> sublist CLAWX_END p \<Longrightarrow> indexOf (p @ CLAWX_END @ r) CLAWX_END = Some (length p)"
  by (rule indexOf_first) (rule no_END_butlast)

lemma merge_replace:
  assumes "\<not> sublist CLAWX_BEGIN p" "\<not> sublist CLAWX_END p" "\<not> sublist CLAWX_END old"
  shows "mergeClawXSection (p @ CLAWX_BEGIN @ old @ CLAWX_END @ suf) s = p @ wrapped s @ suf"
proof -
  let ?d = "p @ CLAWX_BEGIN @ old @ CLAWX_END @ suf"
  have b: "indexOf ?d CLAWX_BEGIN = Some (length p)"
    using assms(1) by (rule indexOf_BEGIN_first)
  have "\<not> sublist CLAWX_END (p @ CLAWX_BEGIN @ old)"
    using assms(2,3) by (simp add: sublist_END_over_BEGIN)
  then have "indexOf ((p @ CLAWX_BEGIN @ old) @ CLAWX_END @ suf) CLAWX_END
      = Some (length (p @ CLAWX_BEGIN @ old))"
    by (rule indexOf_END_first)
  then have e: "indexOf ?d CLAWX_END = Some (length p + 20 + length old)" by simp
  have "drop (length p + 20 + length old + 18) ?d = suf" by simp
  then show ?thesis
    by (simp add: mergeClawXSection_def b e sliceRange_def sliceFrom_def)
qed

lemma merge_append:
  assumes "\<not> sublist CLAWX_BEGIN d \<or> \<not> sublist CLAWX_END d"
  shows "mergeClawXSection d s =
    trimEnd d @ utf16 ''\<newline>\<newline>'' @ wrapped s @ utf16 ''\<newline>''"
  using assms
  by (auto simp: mergeClawXSection_def indexOf_None_iff [symmetric] split: option.splits)

lemma indexOf_firstOccurrence:
  assumes "indexOf c m = Some i"
  shows "firstOccurrence m c (take i c) (drop (i + length m) c)"
proof -
  from assms have i: "i \<le> length c" and pre: "prefix m (drop i c)"
    by (auto dest: indexOf_Some_prefix)
  from pre obtain zs where zs: "drop i c = m @ zs" by (auto simp: prefix_def)
  have "drop (i + length m) c = drop (length m) (drop i c)" by (simp add: add.commute)
  then have "drop (i + length m) c = zs" using zs by simp
  moreover have "c = take i c @ drop i c" by simp
  ultimately have eq: "c = take i c @ m @ drop (i + length m) c" using zs by simp
  have "length (take i c) \<le> length p" if "c = p @ m @ u" for p u
  proof (rule ccontr)
    assume "\<not> length (take i c) \<le> length p"
    then have "length p < i" using i by simp
    then have "\<not> prefix m (drop (length p) c)" using assms indexOf_Some_least by blast
    then show False using that by simp
  qed
  then show ?thesis using eq unfolding firstOccurrence_def by blast
qed

lemma firstOccurrence_indexOf:
  assumes "firstOccurrence m c p u"
  shows "indexOf c m = Some (length p)"
proof -
  from assms have eq: "c = p @ m @ u" and least: "\<And>p' u'. c = p' @ m @ u' \<Longrightarrow> length p \<le> length p'"
    by (auto simp: firstOccurrence_def)
  have "sublist m c" using eq by auto
  then obtain i where i: "indexOf c m = Some i"
    by (cases "indexOf c m") (auto simp: indexOf_None_iff)
  then have f: "firstOccurrence m c (take i c) (drop (i + length m) c)"
    by (rule indexOf_firstOccurrence)
  from i have "i \<le> length c" by (auto dest: indexOf_Some_prefix)
  then have li: "length (take i c) = i" by simp
  have "i \<le> length p" using f eq li unfolding firstOccurrence_def by metis
  moreover have "length p \<le> i" using f least li unfolding firstOccurrence_def by metis
  ultimately show ?thesis using i by simp
qed

lemma wrapped_unfold: "wrapped s = CLAWX_BEGIN @ (0x0A # trim s @ [0x0A]) @ CLAWX_END"
  by (simp add: wrapped_def newline_unfold)

lemma no_END_payload: "\<not> sublist CLAWX_END s \<Longrightarrow> \<not> sublist CLAWX_END (0x0A # trim s @ [0x0A])"
proof -
  assume a: "\<not> sublist CLAWX_END s"
  have "\<not> sublist CLAWX_END (trim s)"
    using a sublist_trim sublist_order.order_trans by blast
  moreover have "\<not> sublist CLAWX_END []" by simp
  ultimately show ?thesis
    using sublist_marker_newline(2) [of "[]" "trim s @ [0x0A]"]
      sublist_marker_newline(2) [of "trim s" "[]"] by simp
qed

lemma no_marker_trimEnd_newlines:
  assumes "\<not> sublist m d" "0x0A \<notin> set m" "m \<noteq> []"
  shows "\<not> sublist m (trimEnd d @ [0x0A, 0x0A])"
proof -
  have "\<not> sublist m (trimEnd d)"
    using assms(1) prefix_trimEnd prefix_imp_sublist sublist_order.order_trans by blast
  moreover have "\<not> sublist m [0x0A]"
    using assms(2,3) by (cases m) (auto simp: sublist_Cons_right)
  ultimately show ?thesis
    using sublist_append_notin [OF assms(2), of "trimEnd d" "[0x0A]"] by simp
qed

lemma merge_idem_aux:
  assumes "\<not> sublist CLAWX_END s"
    and "(\<not> sublist CLAWX_BEGIN d \<and> \<not> sublist CLAWX_END d) \<or>
         (\<exists>p old suf. d = p @ CLAWX_BEGIN @ old @ CLAWX_END @ suf \<and>
            \<not> sublist CLAWX_BEGIN p \<and> \<not> sublist CLAWX_END p \<and> \<not> sublist CLAWX_END old)"
  shows "mergeClawXSection (mergeClawXSection d s) s = mergeClawXSection d s"
proof -
  let ?t = "0x0A # trim s @ [0x0A]"
  have pay: "\<not> sublist CLAWX_END ?t" using assms(1) by (rule no_END_payload)
  have fixp: "mergeClawXSection (p @ wrapped s @ suf) s = p @ wrapped s @ suf"
    if "\<not> sublist CLAWX_BEGIN p" "\<not> sublist CLAWX_END p" for p suf
  proof -
    have "mergeClawXSection (p @ CLAWX_BEGIN @ ?t @ CLAWX_END @ suf) s = p @ wrapped s @ suf"
      using that pay by (rule merge_replace)
    then show ?thesis by (simp add: wrapped_unfold)
  qed
  from assms(2) show ?thesis
  proof
    assume none: "\<not> sublist CLAWX_BEGIN d \<and> \<not> sublist CLAWX_END d"
    then have m: "mergeClawXSection d s = (trimEnd d @ [0x0A, 0x0A]) @ wrapped s @ [0x0A]"
      by (simp add: merge_append newline_unfold)
    have "\<not> sublist CLAWX_BEGIN (trimEnd d @ [0x0A, 0x0A])"
      using none by (intro no_marker_trimEnd_newlines) (simp_all add: CLAWX_BEGIN_unfold)
    moreover have "\<not> sublist CLAWX_END (trimEnd d @ [0x0A, 0x0A])"
      using none by (intro no_marker_trimEnd_newlines) (simp_all add: CLAWX_END_unfold)
    ultimately show ?thesis unfolding m by (rule fixp)
  next
    assume "\<exists>p old suf. d = p @ CLAWX_BEGIN @ old @ CLAWX_END @ suf \<and>
            \<not> sublist CLAWX_BEGIN p \<and> \<not> sublist CLAWX_END p \<and> \<not> sublist CLAWX_END old"
    then obtain p old suf where d: "d = p @ CLAWX_BEGIN @ old @ CLAWX_END @ suf"
      and p: "\<not> sublist CLAWX_BEGIN p" "\<not> sublist CLAWX_END p" and old: "\<not> sublist CLAWX_END old"
      by blast
    have "mergeClawXSection d s = p @ wrapped s @ suf"
      unfolding d using p old by (rule merge_replace)
    then show ?thesis using fixp [OF p] by simp
  qed
qed

lemma merge_has_wrapped: "\<exists>x y. mergeClawXSection d s = x @ wrapped s @ y"
proof (cases "\<exists>b e. indexOf d CLAWX_BEGIN = Some b \<and> indexOf d CLAWX_END = Some e")
  case True
  then obtain b e where "indexOf d CLAWX_BEGIN = Some b" "indexOf d CLAWX_END = Some e"
    by blast
  then have "mergeClawXSection d s =
      sliceRange d 0 b @ wrapped s @ sliceFrom d (e + length CLAWX_END)"
    by (simp add: mergeClawXSection_def)
  then show ?thesis by blast
next
  case False
  then have "mergeClawXSection d s =
      (trimEnd d @ utf16 ''\<newline>\<newline>'') @ wrapped s @ utf16 ''\<newline>''"
    by (auto simp: mergeClawXSection_def split: option.splits)
  then show ?thesis by blast
qed

lemma merge_contains_markers:
  "sublist CLAWX_BEGIN (mergeClawXSection d s) \<and> sublist CLAWX_END (mergeClawXSection d s)"
proof -
  obtain x y where m: "mergeClawXSection d s = x @ wrapped s @ y"
    using merge_has_wrapped by blast
  have "mergeClawXSection d s = x @ CLAWX_BEGIN @ ((0x0A # trim s @ [0x0A]) @ CLAWX_END @ y)"
    using m by (simp add: wrapped_unfold)
  then have 1: "sublist CLAWX_BEGIN (mergeClawXSection d s)" by (metis sublist_appendI)
  have "mergeClawXSection d s = (x @ CLAWX_BEGIN @ (0x0A # trim s @ [0x0A])) @ CLAWX_END @ y"
    using m by (simp add: wrapped_unfold)
  then have "sublist CLAWX_END (mergeClawXSection d s)" by (metis sublist_appendI)
  then show ?thesis using 1 by simp
qed

section \<open>Properties of the section merger\<close>

lemmas string_eval = utf16_def CLAWX_BEGIN_def CLAWX_END_def wrapped_def trim_def trimEnd_def
  trimStart_def isWhiteSpace_def sliceRange_def sliceFrom_def sublist_code

text \<open>
  Claim C1 as stated, for every document and every section, fails: a document that holds
  the begin marker alone is appended to by the first merge and cut down by the second.
\<close>

theorem mergeClawXSection_not_idempotent:
  "mergeClawXSection (mergeClawXSection CLAWX_BEGIN (utf16 ''x'')) (utf16 ''x'')
     \<noteq> mergeClawXSection CLAWX_BEGIN (utf16 ''x'')"
  by (simp add: mergeClawXSection_def string_eval)

text \<open>
  Claim C1, amended: merging the same section twice gives the result of merging it once
  when the section holds no end marker and the document either holds neither marker or
  is \<open>p @ CLAWX_BEGIN @ old @ CLAWX_END @ suf\<close> with no marker in \<open>p\<close> and no end marker in
  \<open>old\<close> (its first begin marker comes before its first end marker).
\<close>

theorem mergeClawXSection_idempotent:
  assumes "\<not> sublist CLAWX_END s"
    and "(\<not> sublist CLAWX_BEGIN d \<and> \<not> sublist CLAWX_END d) \<or>
         (\<exists>p old suf. d = p @ CLAWX_BEGIN @ old @ CLAWX_END @ suf \<and>
            \<not> sublist CLAWX_BEGIN p \<and> \<not> sublist CLAWX_END p \<and> \<not> sublist CLAWX_END old)"
  shows "mergeClawXSection (mergeClawXSection d s) s = mergeClawXSection d s"
  using assms by (rule merge_idem_aux)

text \<open>The amended claim C1 at the document \<^verbatim>\<open>Hello\<close> and the section \<^verbatim>\<open>x\<close>.\<close>

theorem mergeClawXSection_idempotent_witness:
  "\<not> sublist CLAWX_END (utf16 ''x'') \<and>
   \<not> sublist CLAWX_BEGIN (utf16 ''Hello'') \<and> \<not> sublist CLAWX_END (utf16 ''Hello'') \<and>
   mergeClawXSection (mergeClawXSection (utf16 ''Hello'') (utf16 ''x'')) (utf16 ''x'')
     = mergeClawXSection (utf16 ''Hello'') (utf16 ''x'')"
proof -
  have 1: "\<not> sublist CLAWX_END (utf16 ''x'')" by (simp add: string_eval)
  have 2: "\<not> sublist CLAWX_BEGIN (utf16 ''Hello'') \<and> \<not> sublist CLAWX_END (utf16 ''Hello'')"
    by (simp add: string_eval)
  show ?thesis using 1 2 mergeClawXSection_idempotent [of "utf16 ''x''" "utf16 ''Hello''"] by blast
qed

text \<open>
  Claim C2 as stated, for every prefix, old part and suffix, fails: with an end marker
  inside the old part the merge stops at that first end marker and the rest stays.
\<close>

theorem mergeClawXSection_replace_fails:
  "mergeClawXSection ([] @ CLAWX_BEGIN @ CLAWX_END @ CLAWX_END @ []) (utf16 ''x'')
     \<noteq> [] @ CLAWX_BEGIN @ utf16 ''\<newline>'' @ trim (utf16 ''x'') @ utf16 ''\<newline>'' @ CLAWX_END @ []"
  by (simp add: mergeClawXSection_def string_eval)

text \<open>
  Claim C2, amended: if the document is prefix, begin marker, old part, end marker,
  suffix, where the prefix holds neither marker and the old part holds no end marker,
  then the merge is the prefix, the begin marker, a newline, the trimmed section, a
  newline, the end marker and the suffix; prefix and suffix are kept unchanged.
\<close>

theorem mergeClawXSection_replace:
  assumes "d = pre @ CLAWX_BEGIN @ old @ CLAWX_END @ suf"
    and "\<not> sublist CLAWX_BEGIN pre" and "\<not> sublist CLAWX_END pre" and "\<not> sublist CLAWX_END old"
  shows "mergeClawXSection d s =
    pre @ CLAWX_BEGIN @ utf16 ''\<newline>'' @ trim s @ utf16 ''\<newline>'' @ CLAWX_END @ suf"
  using merge_replace [OF assms(2-4), of suf s] assms(1) by (simp add: wrapped_def)

text \<open>The amended claim C2 on a document with text around a stale section.\<close>

theorem mergeClawXSection_replace_witness:
  "mergeClawXSection (utf16 ''intro '' @ CLAWX_BEGIN @ utf16 ''stale'' @ CLAWX_END @ utf16 '' outro'')
     (utf16 '' new '') =
   utf16 ''intro '' @ CLAWX_BEGIN @ utf16 ''\<newline>'' @ trim (utf16 '' new '') @ utf16 ''\<newline>''
     @ CLAWX_END @ utf16 '' outro''"
proof -
  have "\<not> sublist CLAWX_BEGIN (utf16 ''intro '')" "\<not> sublist CLAWX_END (utf16 ''intro '')"
    "\<not> sublist CLAWX_END (utf16 ''stale'')"
    by (simp_all add: string_eval)
  then show ?thesis by (rule mergeClawXSection_replace [OF refl])
qed

text \<open>
  Claim C3: for a document that holds neither marker the merge is the document trimmed
  at its end, two newlines, the begin marker, a newline, the trimmed section, a newline,
  the end marker and a newline; merging \<^verbatim>\<open>Rules: be nice\<close> into \<^verbatim>\<open>Hello\<close> followed by a
  newline gives the text of the specification's scenario.
\<close>

theorem mergeClawXSection_append:
  "(\<not> sublist CLAWX_BEGIN d \<and> \<not> sublist CLAWX_END d \<longrightarrow>
      mergeClawXSection d s =
        trimEnd d @ utf16 ''\<newline>\<newline>'' @ CLAWX_BEGIN @ utf16 ''\<newline>'' @ trim s @
        utf16 ''\<newline>'' @ CLAWX_END @ utf16 ''\<newline>'') \<and>
   mergeClawXSection (utf16 ''Hello\<newline>'') (utf16 ''Rules: be nice'') =
     utf16 ''Hello\<newline>\<newline><!-- clawx:begin -->\<newline>Rules: be nice\<newline><!-- clawx:end -->\<newline>''"
proof
  show "\<not> sublist CLAWX_BEGIN d \<and> \<not> sublist CLAWX_END d \<longrightarrow>
      mergeClawXSection d s =
        trimEnd d @ utf16 ''\<newline>\<newline>'' @ CLAWX_BEGIN @ utf16 ''\<newline>'' @ trim s @
        utf16 ''\<newline>'' @ CLAWX_END @ utf16 ''\<newline>''"
    by (simp add: merge_append wrapped_def)
  show "mergeClawXSection (utf16 ''Hello\<newline>'') (utf16 ''Rules: be nice'') =
     utf16 ''Hello\<newline>\<newline><!-- clawx:begin -->\<newline>Rules: be nice\<newline><!-- clawx:end -->\<newline>''"
    by (simp add: mergeClawXSection_def string_eval)
qed

text \<open>Claim C3 at a document that ends in white space and a section to be trimmed.\<close>

theorem mergeClawXSection_append_witness:
  "\<not> sublist CLAWX_BEGIN (utf16 ''# Agents\<newline> '') \<and> \<not> sublist CLAWX_END (utf16 ''# Agents\<newline> '') \<and>
   mergeClawXSection (utf16 ''# Agents\<newline> '') (utf16 '' be nice '') =
     utf16 ''# Agents\<newline>\<newline><!-- clawx:begin -->\<newline>be nice\<newline><!-- clawx:end -->\<newline>''"
proof -
  have 1: "\<not> sublist CLAWX_BEGIN (utf16 ''# Agents\<newline> '') \<and> \<not> sublist CLAWX_END (utf16 ''# Agents\<newline> '')"
    by (simp add: string_eval)
  have "mergeClawXSection (utf16 ''# Agents\<newline> '') (utf16 '' be nice '') =
        trimEnd (utf16 ''# Agents\<newline> '') @ utf16 ''\<newline>\<newline>'' @ CLAWX_BEGIN @ utf16 ''\<newline>'' @ trim (utf16 '' be nice '') @
        utf16 ''\<newline>'' @ CLAWX_END @ utf16 ''\<newline>''"
    using 1 mergeClawXSection_append [of "utf16 ''# Agents\<newline> ''" "utf16 '' be nice ''"] by blast
  then show ?thesis using 1 by (simp add: string_eval)
qed

text \<open>
  Claim C9: the result of a merge holds the begin marker and the end marker, so
  \<^verbatim>\<open>indexOf\<close> finds both in it and a further merge, with any section, takes the branch
  that replaces.
\<close>

theorem mergeClawXSection_keeps_markers:
  "sublist CLAWX_BEGIN (mergeClawXSection d s) \<and>
   sublist CLAWX_END (mergeClawXSection d s) \<and>
   (\<exists>b e. indexOf (mergeClawXSection d s) CLAWX_BEGIN = Some b \<and>
          indexOf (mergeClawXSection d s) CLAWX_END = Some e \<and>
          mergeClawXSection (mergeClawXSection d s) s' =
            sliceRange (mergeClawXSection d s) 0 b @ wrapped s' @
            sliceFrom (mergeClawXSection d s) (e + length CLAWX_END))"
proof -
  let ?r = "mergeClawXSection d s"
  have m: "sublist CLAWX_BEGIN ?r \<and> sublist CLAWX_END ?r" by (rule merge_contains_markers)
  then obtain b e where be: "indexOf ?r CLAWX_BEGIN = Some b" "indexOf ?r CLAWX_END = Some e"
    by (cases "indexOf ?r CLAWX_BEGIN"; cases "indexOf ?r CLAWX_END")
       (auto simp: indexOf_None_iff)
  then have "mergeClawXSection ?r s' =
      sliceRange ?r 0 b @ wrapped s' @ sliceFrom ?r (e + length CLAWX_END)"
    by (simp add: mergeClawXSection_def [of ?r])
  then show ?thesis using m be by blast
qed

lemma merge_of_blank_aux:
  assumes "\<forall>c \<in> set d. isWhiteSpace c"
    and "\<not> sublist CLAWX_BEGIN d" and "\<not> sublist CLAWX_END d"
    and "\<not> sublist CLAWX_BEGIN s" and "\<not> sublist CLAWX_END s"
  shows "isClawXOnly (mergeClawXSection d s)"
proof -
  let ?t = "0x0A # trim s @ [0x0A]"
  let ?r = "[0x0A, 0x0A] @ CLAWX_BEGIN @ ?t @ CLAWX_END @ [0x0A]"
  have "trimEnd d = []" using assms(1) by (rule trimEnd_whitespace)
  then have r: "mergeClawXSection d s = ?r"
    using assms(2) by (simp add: merge_append newline_unfold wrapped_unfold)
  have nb: "\<not> sublist CLAWX_BEGIN [0x0A, 0x0A]" and ne: "\<not> sublist CLAWX_END [0x0A, 0x0A]"
    by (simp_all add: CLAWX_BEGIN_unfold CLAWX_END_unfold sublist_code)
  have "indexOf ?r CLAWX_BEGIN = Some (length [0x0A, 0x0A :: code_unit])"
    using nb by (rule indexOf_BEGIN_first)
  then have b: "indexOf ?r CLAWX_BEGIN = Some 2" by simp
  have "\<not> sublist CLAWX_END ([0x0A, 0x0A] @ CLAWX_BEGIN @ ?t)"
    using ne no_END_payload [OF assms(5)] by (simp only: sublist_END_over_BEGIN) simp
  then have "indexOf (([0x0A, 0x0A] @ CLAWX_BEGIN @ ?t) @ CLAWX_END @ [0x0A]) CLAWX_END
      = Some (length ([0x0A, 0x0A] @ CLAWX_BEGIN @ ?t))"
    by (rule indexOf_END_first)
  then have e: "indexOf ?r CLAWX_END = Some (24 + length (trim s))" by simp
  have "length ([0x0A, 0x0A] @ CLAWX_BEGIN @ ?t @ CLAWX_END) = 24 + length (trim s) + 18"
    by simp
  then have "drop (24 + length (trim s) + 18) (([0x0A, 0x0A] @ CLAWX_BEGIN @ ?t @ CLAWX_END) @ [0x0A])
      = [0x0A]"
    by (metis append_eq_conv_conj)
  then have aft: "sliceFrom ?r (24 + length (trim s) + length CLAWX_END) = [0x0A]"
    by (simp add: sliceFrom_def)
  have bef: "sliceRange ?r 0 2 = [0x0A, 0x0A]" by (simp add: sliceRange_def)
  have ws: "trim [0x0A :: code_unit] = []" "trim [0x0A, 0x0A :: code_unit] = []"
    by (simp_all add: trim_eq_Nil_iff)
  have "isClawXOnly ?r \<longleftrightarrow>
      trim (sliceRange ?r 0 2) = [] \<and>
      trim (sliceFrom ?r (24 + length (trim s) + length CLAWX_END)) = []"
    unfolding isClawXOnly_def Let_def b e by simp
  then show ?thesis unfolding r bef aft ws by simp
qed

section \<open>The test for a file that holds the section alone\<close>

lemma isClawXOnly_Some:
  assumes "indexOf c CLAWX_BEGIN = Some b" "indexOf c CLAWX_END = Some e"
  shows "isClawXOnly c \<longleftrightarrow> trim (take b c) = [] \<and> trim (drop (e + length CLAWX_END) c) = []"
  using assms by (simp add: isClawXOnly_def sliceRange_def sliceFrom_def)

lemma isClawXOnly_None:
  assumes "indexOf c CLAWX_BEGIN = None \<or> indexOf c CLAWX_END = None"
  shows "\<not> isClawXOnly c"
  using assms by (auto simp: isClawXOnly_def split: option.splits)

lemma isClawXOnly_iff:
  "isClawXOnly c \<longleftrightarrow>
     (\<exists>before u q after.
        firstOccurrence CLAWX_BEGIN c before u \<and> firstOccurrence CLAWX_END c q after \<and>
        trim before = [] \<and> trim after = [])"
proof
  assume h: "isClawXOnly c"
  then obtain b e where be: "indexOf c CLAWX_BEGIN = Some b" "indexOf c CLAWX_END = Some e"
    using isClawXOnly_None [of c] by (cases "indexOf c CLAWX_BEGIN"; cases "indexOf c CLAWX_END") auto
  have "firstOccurrence CLAWX_BEGIN c (take b c) (drop (b + length CLAWX_BEGIN) c)"
    using be(1) by (rule indexOf_firstOccurrence)
  moreover have "firstOccurrence CLAWX_END c (take e c) (drop (e + length CLAWX_END) c)"
    using be(2) by (rule indexOf_firstOccurrence)
  moreover have "trim (take b c) = [] \<and> trim (drop (e + length CLAWX_END) c) = []"
    using h isClawXOnly_Some [OF be] by simp
  ultimately show "\<exists>before u q after.
        firstOccurrence CLAWX_BEGIN c before u \<and> firstOccurrence CLAWX_END c q after \<and>
        trim before = [] \<and> trim after = []"
    by blast
next
  assume "\<exists>before u q after.
        firstOccurrence CLAWX_BEGIN c before u \<and> firstOccurrence CLAWX_END c q after \<and>
        trim before = [] \<and> trim after = []"
  then obtain before u q after where
    fb: "firstOccurrence CLAWX_BEGIN c before u" and fe: "firstOccurrence CLAWX_END c q after"
    and t: "trim before = []" "trim after = []"
    by blast
  have b: "indexOf c CLAWX_BEGIN = Some (length before)" using fb by (rule firstOccurrence_indexOf)
  have e: "indexOf c CLAWX_END = Some (length q)" using fe by (rule firstOccurrence_indexOf)
  have cb: "c = before @ CLAWX_BEGIN @ u" using fb by (simp add: firstOccurrence_def)
  have ce: "c = (q @ CLAWX_END) @ after" using fe by (simp add: firstOccurrence_def)
  have "take (length before) c = before" by (subst cb) simp
  moreover have "drop (length q + length CLAWX_END) c = after"
    by (subst ce) (simp del: append_assoc length_markers)
  ultimately show "isClawXOnly c" using isClawXOnly_Some [OF b e] t by simp
qed

text \<open>
  Claim C4: the test is true exactly when the content holds both markers and both the
  text before the first begin marker and the text after the first end marker trim to
  the empty string; it is false when a marker is missing. A lone section is detected,
  a section after an introduction is not.
\<close>

theorem isClawXOnly_detects_hollow:
  "(isClawXOnly c \<longleftrightarrow>
     (\<exists>before u q after.
        firstOccurrence CLAWX_BEGIN c before u \<and> firstOccurrence CLAWX_END c q after \<and>
        trim before = [] \<and> trim after = [])) \<and>
   (\<not> sublist CLAWX_BEGIN c \<or> \<not> sublist CLAWX_END c \<longrightarrow> \<not> isClawXOnly c) \<and>
   isClawXOnly (CLAWX_BEGIN @ utf16 ''\<newline>X\<newline>'' @ CLAWX_END) \<and>
   \<not> isClawXOnly (utf16 ''intro\<newline>'' @ CLAWX_BEGIN @ utf16 ''\<newline>X\<newline>'' @ CLAWX_END)"
proof (intro conjI)
  show "isClawXOnly c \<longleftrightarrow>
     (\<exists>before u q after.
        firstOccurrence CLAWX_BEGIN c before u \<and> firstOccurrence CLAWX_END c q after \<and>
        trim before = [] \<and> trim after = [])"
    by (rule isClawXOnly_iff)
  show "\<not> sublist CLAWX_BEGIN c \<or> \<not> sublist CLAWX_END c \<longrightarrow> \<not> isClawXOnly c"
    using isClawXOnly_None [of c] by (simp add: indexOf_None_iff)
  show "isClawXOnly (CLAWX_BEGIN @ utf16 ''\<newline>X\<newline>'' @ CLAWX_END)"
    by (simp add: isClawXOnly_def string_eval)
  show "\<not> isClawXOnly (utf16 ''intro\<newline>'' @ CLAWX_BEGIN @ utf16 ''\<newline>X\<newline>'' @ CLAWX_END)"
    by (simp add: isClawXOnly_def string_eval)
qed

text \<open>Claim C4 at a section between a newline and a space, and at a text without markers.\<close>

theorem isClawXOnly_detects_hollow_witness:
  "isClawXOnly (utf16 ''\<newline>'' @ CLAWX_BEGIN @ utf16 ''stale'' @ CLAWX_END @ utf16 '' '') \<and>
   (\<exists>before u q after.
      firstOccurrence CLAWX_BEGIN (utf16 ''\<newline>'' @ CLAWX_BEGIN @ utf16 ''stale'' @ CLAWX_END @ utf16 '' '') before u \<and>
      firstOccurrence CLAWX_END (utf16 ''\<newline>'' @ CLAWX_BEGIN @ utf16 ''stale'' @ CLAWX_END @ utf16 '' '') q after \<and>
      trim before = [] \<and> trim after = []) \<and>
   \<not> sublist CLAWX_BEGIN (utf16 ''plain text'') \<and> \<not> isClawXOnly (utf16 ''plain text'')"
proof -
  let ?c = "utf16 ''\<newline>'' @ CLAWX_BEGIN @ utf16 ''stale'' @ CLAWX_END @ utf16 '' ''"
  have 1: "isClawXOnly ?c" by (simp add: isClawXOnly_def string_eval)
  have 2: "\<not> sublist CLAWX_BEGIN (utf16 ''plain text'')" by (simp add: string_eval)
  show ?thesis using 1 2 isClawXOnly_detects_hollow [of ?c] isClawXOnly_detects_hollow [of "utf16 ''plain text''"] by blast
qed

section \<open>Evaluating the scenario\<close>

lemmas fs_eval = existsSync_def readFileSync_def readdirSync_def writeFileSync_def mkdirSync_def
  posixJoin_def scenarioEnv_def scenarioFs_def scenarioConfig_def scenarioConfigText_def
  relativeConfig_def relativeConfigText_def
  startsWith_def endsWith_def suffix_to_prefix setAdd_def expandHome_def addWorkspace_def
  addConfigDirs_def addScannedDirs_def resolveAllWorkspaceDirs_def Let_def

lemmas sync_eval = syncWorkspace_def syncTarget_def targetName_def replace_def
  mergeClawXSection_def

lemma resolve_scenario:
  "resolveAllWorkspaceDirs scenarioEnv (scenarioFs scenarioConfigText d t) = [utf16 ''/home/u/w1'']"
  by (simp add: fs_eval string_eval)

lemma scenario_first_run:
  "ensureClawXContext scenarioEnv (scenarioFs scenarioConfigText (Some (utf16 ''Hello\<newline>'')) []) =
   Done (scenarioFs scenarioConfigText
           (Some (utf16 ''Hello\<newline>\<newline><!-- clawx:begin -->\<newline>Rules: be nice\<newline><!-- clawx:end -->\<newline>''))
           [utf16 ''/home/u/w1/AGENTS.md''])"
  unfolding ensureClawXContext_def Let_def resolve_scenario
  by (simp add: sync_eval fs_eval string_eval)

lemma scenario_second_run:
  "ensureClawXContext scenarioEnv
     (scenarioFs scenarioConfigText
        (Some (utf16 ''Hello\<newline>\<newline><!-- clawx:begin -->\<newline>Rules: be nice\<newline><!-- clawx:end -->\<newline>''))
        [utf16 ''/home/u/w1/AGENTS.md'']) =
   Done (scenarioFs scenarioConfigText
           (Some (utf16 ''Hello\<newline>\<newline><!-- clawx:begin -->\<newline>Rules: be nice\<newline><!-- clawx:end -->\<newline>''))
           [utf16 ''/home/u/w1/AGENTS.md''])"
  unfolding ensureClawXContext_def Let_def resolve_scenario
  by (simp add: sync_eval fs_eval string_eval)

lemma scenario_no_target:
  "ensureClawXContext scenarioEnv (scenarioFs scenarioConfigText None []) =
   Done (scenarioFs scenarioConfigText None [])"
  unfolding ensureClawXContext_def Let_def resolve_scenario
  by (simp add: sync_eval fs_eval string_eval)

section \<open>Synchronisation creates no file\<close>










section \<open>Synchronisation writes only what changed\<close>

lemma readFileSync_Some: "readFileSync fs p = Some c \<Longrightarrow> files fs p = Some c \<and> p \<notin> unreadable fs"
  by (simp add: readFileSync_def split: if_splits)











section \<open>Properties of workspace discovery\<close>





















section \<open>Target names\<close>

lemma targetName_suffix:
  assumes "\<not> sublist (utf16 ''.clawx.md'') (stem @ butlast (utf16 ''.clawx.md''))"
  shows "targetName (stem @ utf16 ''.clawx.md'') = stem @ utf16 ''.md''"
proof -
  have "indexOf (stem @ utf16 ''.clawx.md'' @ []) (utf16 ''.clawx.md'') = Some (length stem)"
    using assms by (rule indexOf_first)
  then show ?thesis
    by (simp add: targetName_def replace_def sliceRange_def sliceFrom_def)
qed

text \<open>
  Claim C8 at a template name in which \<^verbatim>\<open>.clawx.md\<close> occurs twice: the name passes
  the filter of line 136, and line 149 replaces the first occurrence, not the suffix.
\<close>

theorem targetName_replaces_first_occurrence:
  "endsWith (utf16 ''a.clawx.md.clawx.md'') (utf16 ''.clawx.md'') \<and>
   targetName (utf16 ''a.clawx.md.clawx.md'') = utf16 ''a.md.clawx.md'' \<and>
   targetName (utf16 ''a.clawx.md.clawx.md'') \<noteq> utf16 ''a.clawx.md'' @ utf16 ''.md''"
  by (simp add: targetName_def replace_def endsWith_def suffix_to_prefix string_eval)

section \<open>Repair after a merge into a blank document\<close>

lemma repairFile_unlinks:
  assumes "readFileSync fs (join e workspaceDir f) = Some content"
    and "isClawXOnly content"
    and "join e workspaceDir f \<notin> unwritable fs"
  shows "files (repairFile e workspaceDir fs f) (join e workspaceDir f) = None"
  using assms readFileSync_Some [OF assms(1)]
  by (simp add: repairFile_def unlinkSync_def Let_def)

text \<open>
  Claim C10: for a document of white space only that holds neither marker and a section
  that holds neither marker, the merged text passes the test of
  \<^verbatim>\<open>repairClawXOnlyBootstrapFiles\<close>, and the repair of a file that holds this text, and
  that can be removed, unlinks it.
\<close>

theorem merge_of_blank_isClawXOnly:
  assumes "\<forall>c \<in> set d. isWhiteSpace c"
    and "\<not> sublist CLAWX_BEGIN d" and "\<not> sublist CLAWX_END d"
    and "\<not> sublist CLAWX_BEGIN s" and "\<not> sublist CLAWX_END s"
  shows "isClawXOnly (mergeClawXSection d s) \<and>
    (readFileSync fs (join e workspaceDir f) = Some (mergeClawXSection d s) \<and>
     join e workspaceDir f \<notin> unwritable fs \<longrightarrow>
       files (repairFile e workspaceDir fs f) (join e workspaceDir f) = None)"
proof -
  have h: "isClawXOnly (mergeClawXSection d s)" using assms by (rule merge_of_blank_aux)
  then show ?thesis using repairFile_unlinks [of fs e workspaceDir f "mergeClawXSection d s"] by simp
qed

text \<open>
  Claim C10 at a document of a space and a newline: the repair pass removes the
  \<^verbatim>\<open>AGENTS.md\<close> that holds the merged text.
\<close>

theorem merge_of_blank_isClawXOnly_witness:
  "isClawXOnly (mergeClawXSection (utf16 '' \<newline>'') (utf16 ''Rules'')) \<and>
   files (repairFile scenarioEnv (utf16 ''/home/u/w1'')
            (scenarioFs scenarioConfigText
               (Some (mergeClawXSection (utf16 '' \<newline>'') (utf16 ''Rules''))) [])
            (utf16 ''AGENTS.md''))
     (utf16 ''/home/u/w1/AGENTS.md'') = None \<and>
   files (repairClawXOnlyBootstrapFiles scenarioEnv
            (scenarioFs scenarioConfigText
               (Some (mergeClawXSection (utf16 '' \<newline>'') (utf16 ''Rules''))) []))
     (utf16 ''/home/u/w1/AGENTS.md'') = None"
proof -
  let ?m = "mergeClawXSection (utf16 '' \<newline>'') (utf16 ''Rules'')"
  let ?fs = "scenarioFs scenarioConfigText (Some ?m) []"
  let ?w = "utf16 ''/home/u/w1''"
  have ws: "\<forall>c \<in> set (utf16 '' \<newline>''). isWhiteSpace c" by (simp add: string_eval)
  have nm: "\<not> sublist CLAWX_BEGIN (utf16 '' \<newline>'')" "\<not> sublist CLAWX_END (utf16 '' \<newline>'')"
    "\<not> sublist CLAWX_BEGIN (utf16 ''Rules'')" "\<not> sublist CLAWX_END (utf16 ''Rules'')"
    by (simp_all add: string_eval)
  have j: "join scenarioEnv ?w (utf16 ''AGENTS.md'') = utf16 ''/home/u/w1/AGENTS.md''"
    by (simp add: scenarioEnv_def posixJoin_def utf16_def)
  have rd: "readFileSync ?fs (utf16 ''/home/u/w1/AGENTS.md'') = Some ?m"
    by (simp add: readFileSync_def scenarioFs_def)
  have wr: "utf16 ''/home/u/w1/AGENTS.md'' \<notin> unwritable ?fs" by (simp add: scenarioFs_def)
  note inst = merge_of_blank_isClawXOnly [OF ws nm, of ?fs scenarioEnv ?w "utf16 ''AGENTS.md''"]
  have 1: "isClawXOnly ?m" using inst by blast
  have 2: "files (repairFile scenarioEnv ?w ?fs (utf16 ''AGENTS.md'')) (utf16 ''/home/u/w1/AGENTS.md'') = None"
    using inst rd wr unfolding j by blast
  have ex: "existsSync ?fs ?w" by (simp add: existsSync_def scenarioFs_def utf16_def)
  have ls: "readdirSync ?fs ?w = Some [Dirent (utf16 ''AGENTS.md'') False]"
    by (simp add: readdirSync_def scenarioFs_def utf16_def)
  have en: "endsWith (utf16 ''AGENTS.md'') (utf16 ''.md'')"
    by (simp add: endsWith_def suffix_to_prefix utf16_def)
  have "repairClawXOnlyBootstrapFiles scenarioEnv ?fs = repairFile scenarioEnv ?w ?fs (utf16 ''AGENTS.md'')"
    unfolding repairClawXOnlyBootstrapFiles_def Let_def resolve_scenario
    by (simp add: repairWorkspace_def ex ls en)
  then show ?thesis using 1 2 by simp
qed

end
